theory Spec2Isabelle
  imports Main "HOL-Library.Word"
begin

section \<open>The command helpers of pick (commands/util.go)\<close>

text \<open>
  The file drives four collaborators that live in other packages: the storage backend
  (\<open>backends\<close>), the crypto provider (\<open>crypto\<close>), the safe (\<open>safe\<close>) and the
  interactive password prompt (\<open>utils.GetPasswordInput\<close>). They are taken as parameters:
  an environment of operations over an abstract world \<open>'w\<close>, each returning its outcome
  and the world after the call. The functions of util.go are translated on top of it, with
  the loader passed explicitly (the source mutates it through a pointer) and with a log of
  the calls made, so that prompts, load attempts and writes can be counted.
\<close>

subsection \<open>Data\<close>

type_synonym bytes = "8 word list"

text \<open>
  Go's \<open>int\<close> on a 64-bit platform: \<open>++\<close> wraps around, \<open>>\<close> compares signed
  values (\<open><s\<close> on words).
\<close>

type_synonym go_int = "64 word"

text \<open>
  Modelled from the spec: package \<open>errors\<close> and the errors of the collaborators are not
  among the sources. \<open>ErrInvalidCommandUsage\<close> and \<open>ErrAlreadyRunning\<close> are the two
  sentinels that util.go compares against, under their own names. \<open>NotInitialized\<close>,
  \<open>AuthenticationFailed\<close> and \<open>IOError\<close> are the conditions of the specification's
  taxonomy for the backend and the safe; \<open>OtherError\<close> is any further error of a
  collaborator. \<open>New msg\<close> is the value that \<open>builtinerrors.New(msg)\<close> builds in
  util.go itself. The source compares errors with \<open>==\<close> against the sentinels only.
\<close>

datatype error =
    ErrInvalidCommandUsage
  | ErrAlreadyRunning
  | NotInitialized
  | AuthenticationFailed
  | IOError
  | OtherError string
  | New string

record safeLoader =
  writable :: bool
  password :: "bytes option"
  maxLoadTries :: go_int
  loadTries :: go_int

text \<open>
  The collaborators. \<open>backends_New\<close> is \<open>backends.New(&config.Storage)\<close>, the three
  \<open>client_\<close> operations are the methods of the \<open>backends.Client\<close> it returns,
  \<open>crypto_New\<close> is \<open>crypto.New(&config.Encryption)\<close>, \<open>safe_Load\<close> is \<open>safe.Load\<close>
  with the password it is handed, \<open>safe_Init\<close> is the method \<open>Init\<close> of the loaded safe
  \<open>'s\<close>. Only the error of \<open>client_Load\<close> is kept: the source drops the bytes.
\<close>

record ('w, 's) env =
  backends_New :: "'w \<Rightarrow> error option \<times> 'w"
  client_Load :: "'w \<Rightarrow> error option \<times> 'w"
  client_SetWritable :: "bool \<Rightarrow> 'w \<Rightarrow> error option \<times> 'w"
  client_SafeLocation :: "'w \<Rightarrow> string"
  GetPasswordInput :: "string \<Rightarrow> 'w \<Rightarrow> (error + bytes) \<times> 'w"
  crypto_New :: "'w \<Rightarrow> error option \<times> 'w"
  safe_Load :: "bytes \<Rightarrow> 'w \<Rightarrow> (error + 's) \<times> 'w"
  safe_Init :: "'s \<Rightarrow> 'w \<Rightarrow> error option \<times> 'w"

text \<open>
  The log: one event per call of a collaborator, with its arguments and its error, and
  one per console action. \<open>EvPrintlnErr err\<close> is \<open>fmt.Println(err)\<close>, \<open>EvUsage\<close> is
  \<open>cmd.Usage()\<close>, \<open>EvRedPrintf f args\<close> is the red printer applied to
  \<open>fmt.Sprintf(f, args)\<close>.
\<close>

datatype event =
    EvBackendsNew "error option"
  | EvBackendLoad "error option"
  | EvSetWritable bool "error option"
  | EvPrompt string "error option"
  | EvCryptoNew "error option"
  | EvSafeLoad bytes "error option"
  | EvSafeInit "error option"
  | EvPrintln string
  | EvPrintlnErr error
  | EvUsage
  | EvRedPrintf string "string list"

type_synonym 'w state = "'w \<times> event list"

fun err_of :: "error + 'a \<Rightarrow> error option" where
  "err_of (Inl e) = Some e"
| "err_of (Inr _) = None"

text \<open>
  \<open>fmt.Sprintf\<close> with a format that holds one \<open>%s\<close> and a string argument: the
  argument takes the place of the verb.
\<close>

fun Sprintf_s :: "string \<Rightarrow> string \<Rightarrow> string" where
  "Sprintf_s [] a = []"
| "Sprintf_s [c] a = [c]"
| "Sprintf_s (c # d # cs) a =
     (if c = CHR ''%'' \<and> d = CHR ''s'' then a @ cs else c # Sprintf_s (d # cs) a)"

subsection \<open>Calls of the collaborators, logged\<close>

definition do_backends_New :: "('w, 's) env \<Rightarrow> 'w state \<Rightarrow> error option \<times> 'w state" where
  "do_backends_New E st =
     (case backends_New E (fst st) of
        (r, w') \<Rightarrow> (r, (w', snd st @ [EvBackendsNew r])))"

definition do_client_Load :: "('w, 's) env \<Rightarrow> 'w state \<Rightarrow> error option \<times> 'w state" where
  "do_client_Load E st =
     (case client_Load E (fst st) of
        (r, w') \<Rightarrow> (r, (w', snd st @ [EvBackendLoad r])))"

definition do_SetWritable :: "('w, 's) env \<Rightarrow> bool \<Rightarrow> 'w state \<Rightarrow> error option \<times> 'w state" where
  "do_SetWritable E b st =
     (case client_SetWritable E b (fst st) of
        (r, w') \<Rightarrow> (r, (w', snd st @ [EvSetWritable b r])))"

definition do_GetPasswordInput ::
  "('w, 's) env \<Rightarrow> string \<Rightarrow> 'w state \<Rightarrow> (error + bytes) \<times> 'w state" where
  "do_GetPasswordInput E msg st =
     (case GetPasswordInput E msg (fst st) of
        (r, w') \<Rightarrow> (r, (w', snd st @ [EvPrompt msg (err_of r)])))"

definition do_crypto_New :: "('w, 's) env \<Rightarrow> 'w state \<Rightarrow> error option \<times> 'w state" where
  "do_crypto_New E st =
     (case crypto_New E (fst st) of
        (r, w') \<Rightarrow> (r, (w', snd st @ [EvCryptoNew r])))"

definition do_safe_Load ::
  "('w, 's) env \<Rightarrow> bytes \<Rightarrow> 'w state \<Rightarrow> (error + 's) \<times> 'w state" where
  "do_safe_Load E pw st =
     (case safe_Load E pw (fst st) of
        (r, w') \<Rightarrow> (r, (w', snd st @ [EvSafeLoad pw (err_of r)])))"

definition do_safe_Init :: "('w, 's) env \<Rightarrow> 's \<Rightarrow> 'w state \<Rightarrow> error option \<times> 'w state" where
  "do_safe_Init E s st =
     (case safe_Init E s (fst st) of
        (r, w') \<Rightarrow> (r, (w', snd st @ [EvSafeInit r])))"

definition do_Println :: "string \<Rightarrow> 'w state \<Rightarrow> 'w state" where
  "do_Println msg st = (fst st, snd st @ [EvPrintln msg])"

subsection \<open>The safe loader\<close>

definition newSafeLoader :: "bool \<Rightarrow> safeLoader" where
  "newSafeLoader w = \<lparr>writable = w, password = None, maxLoadTries = 0, loadTries = 0\<rparr>"

definition RememberPassword :: "safeLoader \<Rightarrow> safeLoader" where
  "RememberPassword sl = sl\<lparr>maxLoadTries := maxLoadTries sl + 1\<rparr>"

text \<open>
  Lines 72 to 78 of \<open>LoadWithBackendClient\<close>: the cached password, or the one the prompt
  returns. The caller stores it in the loader.
\<close>

definition cachedPassword ::
  "('w, 's) env \<Rightarrow> safeLoader \<Rightarrow> 'w state \<Rightarrow> (error + bytes) \<times> 'w state" where
  "cachedPassword E sl st =
     (case password sl of
        None \<Rightarrow>
          do_GetPasswordInput E
            (Sprintf_s (''Enter your master password for safe '%s'' @ [CHR 0x27])
               (client_SafeLocation E (fst st))) st
      | Some pw \<Rightarrow> (Inr pw, st))"

text \<open>The measure of the recursion: the retries left.\<close>

definition retries_left :: "safeLoader \<Rightarrow> nat" where
  "retries_left sl = nat (sint (maxLoadTries sl) - sint (loadTries sl))"

function LoadWithBackendClient ::
  "('w, 's) env \<Rightarrow> safeLoader \<Rightarrow> 'w state \<Rightarrow> (error + 's) \<times> safeLoader \<times> 'w state" where
  "LoadWithBackendClient E sl st =
     (case do_SetWritable E (writable sl) st of
        (err, st1) \<Rightarrow>
          if err = Some ErrAlreadyRunning then (Inl ErrAlreadyRunning, sl, st1)
          else
            (case cachedPassword E sl st1 of
               (Inl e, st2) \<Rightarrow> (Inl e, sl, st2)
             | (Inr pw, st2) \<Rightarrow>
                 (case do_crypto_New E st2 of
                    (Some e, st3) \<Rightarrow> (Inl e, sl\<lparr>password := Some pw\<rparr>, st3)
                  | (None, st3) \<Rightarrow>
                      (case do_safe_Load E pw st3 of
                         (Inl e, st4) \<Rightarrow>
                           if loadTries sl <s maxLoadTries sl
                           then LoadWithBackendClient E
                                  (sl\<lparr>password := None, loadTries := loadTries sl + 1\<rparr>) st4
                           else (Inl e, sl\<lparr>password := Some pw\<rparr>, st4)
                       | (Inr s, st4) \<Rightarrow> (Inr s, sl\<lparr>password := Some pw\<rparr>, st4)))))"
  by pat_completeness auto

termination
proof (relation "measure (\<lambda>(E, sl, st). retries_left sl)")
  show "wf (measure (\<lambda>(E :: ('w, 's) env, sl, st :: 'w state). retries_left sl))"
    by simp
next
  fix E :: "('w, 's) env" and sl :: safeLoader and st :: "'w state"
    and st4 :: "'w state"
  assume guard: "loadTries sl <s maxLoadTries sl"
  have lt: "sint (loadTries sl) < sint (maxLoadTries sl)"
    using guard by (simp add: word_sless_alt)
  have "sint (maxLoadTries sl) < 2 ^ 63"
    using sint_lt [of "maxLoadTries sl"] by simp
  moreover have "- (2 ^ 63) \<le> sint (loadTries sl)"
    using sint_ge [of "loadTries sl"] by simp
  ultimately have "signed_take_bit 63 (sint (loadTries sl) + 1) = sint (loadTries sl) + 1"
    using lt by (simp add: signed_take_bit_int_eq_self)
  then have "sint (loadTries sl + 1) = sint (loadTries sl) + 1"
    by (simp add: sint_word_ariths)
  then show "((E, sl\<lparr>password := None, loadTries := loadTries sl + 1\<rparr>, st4), (E, sl, st))
      \<in> measure (\<lambda>(E, sl, st). retries_left sl)"
    using lt by (simp add: retries_left_def)
qed

definition Load ::
  "('w, 's) env \<Rightarrow> safeLoader \<Rightarrow> 'w state \<Rightarrow> (error + 's) \<times> safeLoader \<times> 'w state" where
  "Load E sl st =
     (case do_backends_New E st of
        (Some e, st1) \<Rightarrow> (Inl e, sl, st1)
      | (None, st1) \<Rightarrow>
          (case do_client_Load E st1 of
             (Some e, st2) \<Rightarrow>
               (Inl (New ''pick not yet initialized. Please run the init command first''),
                sl, st2)
           | (None, st2) \<Rightarrow> LoadWithBackendClient E sl st2))"

subsection \<open>Initialisation\<close>

definition readMasterPassConfirmed ::
  "('w, 's) env \<Rightarrow> bool \<Rightarrow> 'w state \<Rightarrow> (error + bytes) \<times> 'w state" where
  "readMasterPassConfirmed E n st =
     (let add = (if n then ''new '' else '''') in
      case do_GetPasswordInput E
             (Sprintf_s
                ''Please set a %smaster password. This is the only password you need to remember''
                add) st of
        (Inl e, st1) \<Rightarrow> (Inl e, st1)
      | (Inr pw, st1) \<Rightarrow>
          (case do_GetPasswordInput E
                  (Sprintf_s ''Please confirm your %smaster password'' add) st1 of
             (Inl e, st2) \<Rightarrow> (Inl e, st2)
           | (Inr pwConfirm, st2) \<Rightarrow>
               if pw \<noteq> pwConfirm then (Inl (New ''Master passwords do not match''), st2)
               else (Inr pw, st2)))"

definition initSafe :: "('w, 's) env \<Rightarrow> 'w state \<Rightarrow> error option \<times> 'w state" where
  "initSafe E st =
     (case do_backends_New E st of
        (Some e, st1) \<Rightarrow> (Some e, st1)
      | (None, st1) \<Rightarrow>
          (case do_client_Load E st1 of
             (None, st2) \<Rightarrow> (Some (New ''pick was already initialized''), st2)
           | (Some _, st2) \<Rightarrow>
               (case do_SetWritable E True st2 of
                  (err, st3) \<Rightarrow>
                    if err = Some ErrAlreadyRunning then (Some ErrAlreadyRunning, st3)
                    else
                      (case readMasterPassConfirmed E False st3 of
                         (Inl e, st4) \<Rightarrow> (Some e, st4)
                       | (Inr pw, st4) \<Rightarrow>
                           (case do_crypto_New E st4 of
                              (Some e, st5) \<Rightarrow> (Some e, st5)
                            | (None, st5) \<Rightarrow>
                                (case do_safe_Load E pw st5 of
                                   (Inl e, st6) \<Rightarrow> (Some e, st6)
                                 | (Inr s, st6) \<Rightarrow>
                                     (case do_safe_Init E s st6 of
                                        (Some e, st7) \<Rightarrow> (Some e, st7)
                                      | (None, st7) \<Rightarrow>
                                          (None, do_Println ''pick initialized'' st7))))))))"

subsection \<open>Running a command\<close>

text \<open>
  Of the \<open>cobra.Command\<close> only the flag set is read. The wrapped command \<open>c\<close> returns
  its error together with what it printed. \<open>os.Exit\<close> ends the process: \<open>runCommand\<close>
  returns the exit code and the log at that moment.
\<close>

record 'f command =
  Flags :: 'f

definition handleError :: "error \<Rightarrow> event list \<Rightarrow> go_int \<times> event list" where
  "handleError err out = (1, out @ [EvPrintlnErr err])"

definition runCommand ::
  "(string list \<Rightarrow> 'f \<Rightarrow> error option \<times> event list)
     \<Rightarrow> 'f command \<Rightarrow> string list \<Rightarrow> event list \<Rightarrow> go_int \<times> event list" where
  "runCommand c cmd args out =
     (case c args (Flags cmd) of
        (Some err, printed) \<Rightarrow>
          if err = ErrInvalidCommandUsage then (1, out @ printed @ [EvUsage])
          else handleError err (out @ printed)
      | (None, printed) \<Rightarrow> (0, out @ printed))"

definition runMovedCommand ::
  "(string list \<Rightarrow> 'f \<Rightarrow> error option \<times> event list)
     \<Rightarrow> 'f command \<Rightarrow> string list \<Rightarrow> string \<Rightarrow> event list \<Rightarrow> go_int \<times> event list" where
  "runMovedCommand c cmd args nl out =
     runCommand c cmd args
       (out @ [EvRedPrintf
                 (''NOTE: This command has moved to %q and will be removed soon.''
                    @ [CHR 0x0A, CHR 0x0A]) [nl]])"

section \<open>What the log shows\<close>

definition is_prompt :: "event \<Rightarrow> bool" where
  "is_prompt ev = (case ev of EvPrompt _ _ \<Rightarrow> True | _ \<Rightarrow> False)"

definition is_safe_load :: "event \<Rightarrow> bool" where
  "is_safe_load ev = (case ev of EvSafeLoad _ _ \<Rightarrow> True | _ \<Rightarrow> False)"

text \<open>The number of password prompts, and of \<open>safe.Load\<close> attempts, in a log.\<close>

definition prompts :: "event list \<Rightarrow> nat" where
  "prompts tr = length (filter is_prompt tr)"

definition attempts :: "event list \<Rightarrow> nat" where
  "attempts tr = length (filter is_safe_load tr)"

definition is_failed_load :: "event \<Rightarrow> bool" where
  "is_failed_load ev = (case ev of EvSafeLoad _ (Some _) \<Rightarrow> True | _ \<Rightarrow> False)"

definition failed_loads :: "event list \<Rightarrow> nat" where
  "failed_loads tr = length (filter is_failed_load tr)"

definition is_backend_load :: "event \<Rightarrow> bool" where
  "is_backend_load ev = (case ev of EvBackendLoad _ \<Rightarrow> True | _ \<Rightarrow> False)"

definition is_set_writable :: "event \<Rightarrow> bool" where
  "is_set_writable ev = (case ev of EvSetWritable _ _ \<Rightarrow> True | _ \<Rightarrow> False)"



text \<open>The invariant of the loader: no more retries consumed than allowed.\<close>

definition tries_inv :: "safeLoader \<Rightarrow> bool" where
  "tries_inv sl = (loadTries sl \<le>s maxLoadTries sl)"

definition max_go_int :: go_int where
  "max_go_int = 0x7FFFFFFFFFFFFFFF"

text \<open>The loader handed to the recursive call (lines 94 and 95).\<close>

abbreviation retry :: "safeLoader \<Rightarrow> safeLoader" where
  "retry sl \<equiv> sl\<lparr>password := None, loadTries := loadTries sl + 1\<rparr>"

text \<open>
  One pass through the body of \<open>LoadWithBackendClient\<close>, up to the recursive call:
  \<open>Some\<close> of what the pass returns, or \<open>None\<close> when it ends in the recursive call.
  Lemma \<open>LWBC_attempt\<close> ties it to the function.
\<close>

definition attempt ::
  "('w, 's) env \<Rightarrow> safeLoader \<Rightarrow> 'w state \<Rightarrow> ((error + 's) \<times> safeLoader) option \<times> 'w state" where
  "attempt E sl st =
     (case do_SetWritable E (writable sl) st of
        (err, st1) \<Rightarrow>
          if err = Some ErrAlreadyRunning then (Some (Inl ErrAlreadyRunning, sl), st1)
          else
            (case cachedPassword E sl st1 of
               (Inl e, st2) \<Rightarrow> (Some (Inl e, sl), st2)
             | (Inr pw, st2) \<Rightarrow>
                 (case do_crypto_New E st2 of
                    (Some e, st3) \<Rightarrow> (Some (Inl e, sl\<lparr>password := Some pw\<rparr>), st3)
                  | (None, st3) \<Rightarrow>
                      (case do_safe_Load E pw st3 of
                         (Inl e, st4) \<Rightarrow>
                           if loadTries sl <s maxLoadTries sl then (None, st4)
                           else (Some (Inl e, sl\<lparr>password := Some pw\<rparr>), st4)
                       | (Inr s, st4) \<Rightarrow> (Some (Inr s, sl\<lparr>password := Some pw\<rparr>), st4)))))"


definition entry_msg :: "string \<Rightarrow> string" where
  "entry_msg add =
     Sprintf_s
       ''Please set a %smaster password. This is the only password you need to remember'' add"

definition confirm_msg :: "string \<Rightarrow> string" where
  "confirm_msg add = Sprintf_s ''Please confirm your %smaster password'' add"

definition moved_note :: "string \<Rightarrow> event" where
  "moved_note nl =
     EvRedPrintf (''NOTE: This command has moved to %q and will be removed soon.''
                    @ [CHR 0x0A, CHR 0x0A]) [nl]"

subsection \<open>Concrete collaborators and commands\<close>

text \<open>A backend that holds a safe, and collaborators that all succeed.\<close>

definition env_ok :: "(unit, unit) env" where
  "env_ok =
     \<lparr>backends_New = (\<lambda>w. (None, w)),
      client_Load = (\<lambda>w. (None, w)),
      client_SetWritable = (\<lambda>b w. (None, w)),
      client_SafeLocation = (\<lambda>w. ''safe''),
      GetPasswordInput = (\<lambda>msg w. (Inr [1, 2, 3], w)),
      crypto_New = (\<lambda>w. (None, w)),
      safe_Load = (\<lambda>pw w. (Inr (), w)),
      safe_Init = (\<lambda>s w. (None, w))\<rparr>"

text \<open>A backend with nothing stored yet.\<close>

definition env_fresh :: "(unit, unit) env" where
  "env_fresh = env_ok\<lparr>client_Load := (\<lambda>w. (Some NotInitialized, w))\<rparr>"



text \<open>A backend whose payload cannot be read.\<close>

definition env_unreadable :: "(unit, unit) env" where
  "env_unreadable =
     env_ok\<lparr>client_Load := (\<lambda>w. (Some IOError, w)),
            safe_Load := (\<lambda>pw w. (Inl IOError, w))\<rparr>"

text \<open>
  The world counts the prompts; the \<open>n\<close>-th prompt returns the one-byte password \<open>n\<close>,
  and \<open>safe.Load\<close> fails with an I/O error on the first password only.
\<close>

definition env_flaky :: "(nat, unit) env" where
  "env_flaky =
     \<lparr>backends_New = (\<lambda>w. (None, w)),
      client_Load = (\<lambda>w. (None, w)),
      client_SetWritable = (\<lambda>b w. (None, w)),
      client_SafeLocation = (\<lambda>w. ''safe''),
      GetPasswordInput = (\<lambda>msg w. (Inr [of_nat w], Suc w)),
      crypto_New = (\<lambda>w. (None, w)),
      safe_Load = (\<lambda>pw w. (if pw = [0] then Inl IOError else Inr (), w)),
      safe_Init = (\<lambda>s w. (None, w))\<rparr>"

definition sl_full :: safeLoader where
  "sl_full = \<lparr>writable = False, password = None, maxLoadTries = max_go_int, loadTries = 0\<rparr>"

definition cmd_ok :: "string list \<Rightarrow> unit \<Rightarrow> error option \<times> event list" where
  "cmd_ok args fl = (None, [EvPrintln ''done''])"

definition cmd_usage :: "string list \<Rightarrow> unit \<Rightarrow> error option \<times> event list" where
  "cmd_usage args fl = (Some ErrInvalidCommandUsage, [])"

definition cmd_fail :: "string list \<Rightarrow> unit \<Rightarrow> error option \<times> event list" where
  "cmd_fail args fl = (Some AuthenticationFailed, [])"

section \<open>Properties\<close>

declare LoadWithBackendClient.simps [simp del] Sprintf_s.simps [simp del]

subsection \<open>Counters that do not wrap\<close>

lemma sint_succ_below:
  fixes x y :: go_int
  assumes "x <s y"
  shows "sint (x + 1) = sint x + 1"
proof -
  have "sint x < sint y" using assms by (simp add: word_sless_alt)
  moreover have "sint y < 2 ^ 63" using sint_lt [of y] by simp
  moreover have "- (2 ^ 63) \<le> sint x" using sint_ge [of x] by simp
  ultimately have "- (2 ^ 63) \<le> sint x + 1 \<and> sint x + 1 < 2 ^ 63" by simp
  then have "signed_take_bit 63 (sint x + 1) = sint x + 1"
    by (simp add: signed_take_bit_int_eq_self)
  then show ?thesis by (simp add: sint_word_ariths)
qed

lemma sint_max_go_int: "sint max_go_int = 2 ^ 63 - 1"
  by (simp add: max_go_int_def)

lemma sint_succ_not_max:
  fixes x :: go_int
  assumes "x \<noteq> max_go_int"
  shows "sint (x + 1) = sint x + 1"
proof -
  have "sint x \<noteq> sint max_go_int"
    using assms by (simp add: word_eq_iff_signed [where 'a = int])
  then have "sint x \<noteq> 2 ^ 63 - 1" unfolding sint_max_go_int .
  moreover have "sint x < 2 ^ 63" using sint_lt [of x] by simp
  moreover have "- (2 ^ 63) \<le> sint x" using sint_ge [of x] by simp
  ultimately have "- (2 ^ 63) \<le> sint x + 1 \<and> sint x + 1 < 2 ^ 63" by simp
  then have "signed_take_bit 63 (sint x + 1) = sint x + 1"
    by (simp add: signed_take_bit_int_eq_self)
  then show ?thesis by (simp add: sint_word_ariths)
qed

lemma retries_left_retry:
  "loadTries sl <s maxLoadTries sl \<Longrightarrow> retries_left (retry sl) < retries_left sl"
  by (simp add: retries_left_def sint_succ_below word_sless_alt)

subsection \<open>The recursion, one pass at a time\<close>

lemmas do_defs = do_SetWritable_def do_GetPasswordInput_def do_crypto_New_def
  do_safe_Load_def cachedPassword_def

lemmas init_defs = initSafe_def readMasterPassConfirmed_def do_backends_New_def
  do_client_Load_def do_SetWritable_def do_GetPasswordInput_def do_crypto_New_def
  do_safe_Load_def do_safe_Init_def do_Println_def

lemma LWBC_attempt:
  "LoadWithBackendClient E sl st =
     (case attempt E sl st of
        (Some out, st') \<Rightarrow> (fst out, snd out, st')
      | (None, st') \<Rightarrow> LoadWithBackendClient E (retry sl) st')"
  by (subst LoadWithBackendClient.simps)
     (simp add: attempt_def split: prod.splits sum.splits option.splits)

lemma attempt_None_guard:
  "attempt E sl st = (None, st') \<Longrightarrow> loadTries sl <s maxLoadTries sl"
  by (auto simp: attempt_def split: prod.splits sum.splits option.splits if_splits)

lemma LWBC_induct [case_names attempt]:
  assumes step: "\<And>sl st. (\<And>st'. attempt E sl st = (None, st') \<Longrightarrow> P (retry sl) st') \<Longrightarrow> P sl st"
  shows "P sl st"
proof (induction "retries_left sl" arbitrary: sl st rule: less_induct)
  case (less sl st)
  show ?case
  proof (rule step [of sl st])
    fix st'
    assume "attempt E sl st = (None, st')"
    then have "retries_left (retry sl) < retries_left sl"
      by (intro retries_left_retry) (rule attempt_None_guard)
    then show "P (retry sl) st'" by (rule less)
  qed
qed

lemma attempt_Some_loader:
  "attempt E sl st = (Some (r, sl'), st') \<Longrightarrow>
     maxLoadTries sl' = maxLoadTries sl \<and> loadTries sl' = loadTries sl \<and> writable sl' = writable sl"
  by (auto simp: attempt_def split: prod.splits sum.splits option.splits if_splits)

lemma LWBC_loader:
  "LoadWithBackendClient E sl st = (r, sl', st') \<Longrightarrow>
     maxLoadTries sl' = maxLoadTries sl \<and> writable sl' = writable sl
     \<and> sint (loadTries sl) \<le> sint (loadTries sl')
     \<and> (tries_inv sl \<longrightarrow> tries_inv sl')"
proof (induction sl st rule: LWBC_induct [where E = E])
  case (attempt sl st)
  show ?case
  proof -
    obtain x st1 where Pair: "attempt E sl st = (x, st1)" by (rule prod.exhaust)
    show ?thesis
    proof (cases x)
      case None
      with Pair have a: "attempt E sl st = (None, st1)" by simp
      then have g: "loadTries sl <s maxLoadTries sl" by (rule attempt_None_guard)
      from a attempt.prems have "LoadWithBackendClient E (retry sl) st1 = (r, sl', st')"
        by (simp add: LWBC_attempt [of E sl st])
      from attempt.IH [OF a this] g show ?thesis
        by (auto simp: tries_inv_def word_sle_eq word_sless_alt sint_succ_below)
    next
      case (Some out)
      with Pair attempt.prems have "attempt E sl st = (Some (r, sl'), st')"
        by (cases out) (simp add: LWBC_attempt [of E sl st])
      from attempt_Some_loader [OF this] show ?thesis
        by (simp add: tries_inv_def)
    qed
  qed
qed

subsection \<open>Counting prompts\<close>

lemma prompts_append [simp]: "prompts (xs @ ys) = prompts xs + prompts ys"
  by (simp add: prompts_def)

lemma prompts_Cons [simp]:
  "prompts (ev # tr) = (if is_prompt ev then 1 else 0) + prompts tr"
  by (simp add: prompts_def)

lemma prompts_Nil [simp]: "prompts [] = 0"
  by (simp add: prompts_def)

lemma is_prompt_simps [simp]:
  "is_prompt (EvPrompt m r)" "\<not> is_prompt (EvBackendsNew r)" "\<not> is_prompt (EvBackendLoad r)"
  "\<not> is_prompt (EvSetWritable b r)" "\<not> is_prompt (EvCryptoNew r)"
  "\<not> is_prompt (EvSafeLoad pw r)" "\<not> is_prompt (EvSafeInit r)" "\<not> is_prompt (EvPrintln m)"
  "\<not> is_prompt (EvPrintlnErr e)" "\<not> is_prompt EvUsage" "\<not> is_prompt (EvRedPrintf f as)"
  by (simp_all add: is_prompt_def)

lemma readMasterPassConfirmed_ok_prompts:
  "readMasterPassConfirmed E n (w, tr) = (Inr pw, (w', tr')) \<Longrightarrow> prompts tr' = prompts tr + 2"
  by (auto simp: readMasterPassConfirmed_def do_GetPasswordInput_def Let_def
        split: prod.splits sum.splits if_splits)

lemma initSafe_success_prompts:
  "initSafe E (w, tr) = (None, (w', tr')) \<Longrightarrow> prompts tr' = prompts tr + 2"
  by (auto simp: initSafe_def do_backends_New_def do_client_Load_def do_SetWritable_def
        do_crypto_New_def do_safe_Load_def do_safe_Init_def do_Println_def
        dest!: readMasterPassConfirmed_ok_prompts
        split: prod.splits sum.splits option.splits if_splits)

subsection \<open>Counting load attempts\<close>

lemma attempts_append [simp]: "attempts (xs @ ys) = attempts xs + attempts ys"
  by (simp add: attempts_def)

lemma attempts_Cons [simp]:
  "attempts (ev # tr) = (if is_safe_load ev then 1 else 0) + attempts tr"
  by (simp add: attempts_def)

lemma attempts_Nil [simp]: "attempts [] = 0"
  by (simp add: attempts_def)

lemma is_safe_load_simps [simp]:
  "is_safe_load (EvSafeLoad pw r)" "\<not> is_safe_load (EvBackendsNew r)"
  "\<not> is_safe_load (EvBackendLoad r)" "\<not> is_safe_load (EvSetWritable b r)"
  "\<not> is_safe_load (EvCryptoNew r)" "\<not> is_safe_load (EvPrompt m r)"
  "\<not> is_safe_load (EvSafeInit r)" "\<not> is_safe_load (EvPrintln m)"
  "\<not> is_safe_load (EvPrintlnErr e)" "\<not> is_safe_load EvUsage"
  "\<not> is_safe_load (EvRedPrintf f as)"
  by (simp_all add: is_safe_load_def)

lemma attempt_attempts:
  "attempt E sl (w, tr) = (x, (w', tr')) \<Longrightarrow> attempts tr' \<le> attempts tr + 1"
  by (auto simp: attempt_def do_defs split: prod.splits sum.splits option.splits if_splits)

lemma LWBC_attempts:
  "LoadWithBackendClient E sl st = (r, sl', st') \<Longrightarrow>
     attempts (snd st') \<le> attempts (snd st) + retries_left sl + 1"
proof (induction sl st rule: LWBC_induct [where E = E])
  case (attempt sl st)
  obtain x w1 tr1 where a: "attempt E sl st = (x, (w1, tr1))" by (rule prod_cases3)
  then have one: "attempts tr1 \<le> attempts (snd st) + 1"
    using attempt_attempts [of E sl "fst st" "snd st"] by simp
  show ?case
  proof (cases x)
    case None
    with a have n: "attempt E sl st = (None, (w1, tr1))" by simp
    then have "retries_left (retry sl) < retries_left sl"
      by (intro retries_left_retry) (rule attempt_None_guard)
    moreover from n attempt.prems
    have "LoadWithBackendClient E (retry sl) (w1, tr1) = (r, sl', st')"
      by (simp add: LWBC_attempt [of E sl st])
    from attempt.IH [OF n this]
    have "attempts (snd st') \<le> attempts tr1 + retries_left (retry sl) + 1" by simp
    ultimately show ?thesis using one by linarith
  next
    case (Some out)
    with a attempt.prems have "st' = (w1, tr1)"
      by (simp add: LWBC_attempt [of E sl st])
    with one show ?thesis by simp
  qed
qed

subsection \<open>Runs in which every load attempt fails\<close>

lemma funpow_RememberPassword:
  "(RememberPassword ^^ N) (newSafeLoader wr) =
     \<lparr>writable = wr, password = None, maxLoadTries = of_nat N, loadTries = 0\<rparr>"
  by (induction N) (simp_all add: newSafeLoader_def RememberPassword_def)



subsection \<open>Retries and failed loads\<close>

lemma failed_loads_append [simp]: "failed_loads (xs @ ys) = failed_loads xs + failed_loads ys"
  by (simp add: failed_loads_def)

lemma failed_loads_Cons [simp]:
  "failed_loads (ev # tr) = (if is_failed_load ev then 1 else 0) + failed_loads tr"
  by (simp add: failed_loads_def)

lemma failed_loads_Nil [simp]: "failed_loads [] = 0"
  by (simp add: failed_loads_def)

lemma is_failed_load_simps [simp]:
  "is_failed_load (EvSafeLoad pw r) = (r \<noteq> None)" "\<not> is_failed_load (EvBackendsNew r)"
  "\<not> is_failed_load (EvBackendLoad r)" "\<not> is_failed_load (EvSetWritable b r)"
  "\<not> is_failed_load (EvCryptoNew r)" "\<not> is_failed_load (EvPrompt m r)"
  "\<not> is_failed_load (EvSafeInit r)" "\<not> is_failed_load (EvPrintln m)"
  "\<not> is_failed_load (EvPrintlnErr e)" "\<not> is_failed_load EvUsage"
  "\<not> is_failed_load (EvRedPrintf f as)"
  by (simp_all add: is_failed_load_def split: option.splits)

lemma is_set_writable_simps [simp]:
  "is_set_writable (EvSetWritable b r)" "\<not> is_set_writable (EvBackendsNew r)"
  "\<not> is_set_writable (EvBackendLoad r)" "\<not> is_set_writable (EvSafeLoad pw r)"
  "\<not> is_set_writable (EvCryptoNew r)" "\<not> is_set_writable (EvPrompt m r)"
  "\<not> is_set_writable (EvSafeInit r)" "\<not> is_set_writable (EvPrintln m)"
  by (simp_all add: is_set_writable_def)



subsection \<open>What becomes of errors\<close>

lemma is_backend_load_simps [simp]:
  "is_backend_load (EvBackendLoad r)" "\<not> is_backend_load (EvBackendsNew r)"
  "\<not> is_backend_load (EvSetWritable b r)" "\<not> is_backend_load (EvSafeLoad pw r)"
  "\<not> is_backend_load (EvCryptoNew r)" "\<not> is_backend_load (EvPrompt m r)"
  "\<not> is_backend_load (EvSafeInit r)" "\<not> is_backend_load (EvPrintln m)"
  by (simp_all add: is_backend_load_def)






subsection \<open>The retry bound\<close>



subsection \<open>Which errors are retried\<close>




subsection \<open>Initialising twice\<close>

text \<open>
  Claim C3, as amended. When the backend client is built and \<open>backendClient.Load\<close> returns
  no error (the backend reports stored data), \<open>initSafe\<close> fails with the error
  "pick was already initialized", and the only calls it has made are \<open>backends.New\<close> and
  that \<open>Load\<close>: no lock request, no prompt, no \<open>safe.Load\<close>, no \<open>Init\<close>, so nothing is
  written.
\<close>

theorem initSafe_already_initialized:
  assumes "backends_New E w = (None, w1)" and "client_Load E w1 = (None, w2)"
  shows "initSafe E (w, tr) =
           (Some (New ''pick was already initialized''),
            (w2, tr @ [EvBackendsNew None, EvBackendLoad None]))"
  using assms by (simp add: initSafe_def do_backends_New_def do_client_Load_def)

theorem initSafe_already_initialized_witness:
  "initSafe env_ok ((), []) =
     (Some (New ''pick was already initialized''), ((), [EvBackendsNew None, EvBackendLoad None]))"
  using initSafe_already_initialized [of env_ok "()" "()" "()" "[]"]
  by (simp add: env_ok_def)

text \<open>
  The claim as stated takes "does not report NotInitialized" for "reports stored data". A
  \<open>Load\<close> that fails with an I/O error does not report \<open>NotInitialized\<close>, and yet
  \<open>initSafe\<close> does not answer "already initialized": it takes the lock, prompts twice and
  calls \<open>safe.Load\<close>, whose error it returns.
\<close>

theorem initSafe_unreadable_counterexample:
  "client_Load env_unreadable () = (Some IOError, ()) \<and> IOError \<noteq> NotInitialized
   \<and> initSafe env_unreadable ((), []) =
       (Some IOError,
        ((), [EvBackendsNew None, EvBackendLoad (Some IOError), EvSetWritable True None,
              EvPrompt (entry_msg '''') None, EvPrompt (confirm_msg '''') None,
              EvCryptoNew None, EvSafeLoad [1, 2, 3] (Some IOError)]))"
  by (simp add: init_defs env_unreadable_def env_ok_def entry_msg_def confirm_msg_def)

subsection \<open>Loading a safe that is not there\<close>

text \<open>
  Claim C4, as amended. Once the backend client is built, \<open>Load\<close> answers with the error
  "pick not yet initialized" whenever \<open>backendClient.Load\<close> returns an error, whichever
  error it is, and has then made no call but \<open>backends.New\<close> and that \<open>Load\<close> (no lock
  request, no prompt). When \<open>backendClient.Load\<close> returns no error, \<open>Load\<close> is the unlock
  sequence \<open>LoadWithBackendClient\<close>.
\<close>

theorem Load_not_initialized:
  assumes "backends_New E w = (None, w1)"
  shows "(client_Load E w1 = (Some e, w2) \<longrightarrow>
            Load E sl (w, tr) =
              (Inl (New ''pick not yet initialized. Please run the init command first''), sl,
               (w2, tr @ [EvBackendsNew None, EvBackendLoad (Some e)])))
         \<and> (client_Load E w1 = (None, w2) \<longrightarrow>
            Load E sl (w, tr) =
              LoadWithBackendClient E sl (w2, tr @ [EvBackendsNew None, EvBackendLoad None]))"
  using assms by (simp add: Load_def do_backends_New_def do_client_Load_def)

theorem Load_not_initialized_witness:
  "Load env_fresh (newSafeLoader False) ((), []) =
     (Inl (New ''pick not yet initialized. Please run the init command first''),
      newSafeLoader False, ((), [EvBackendsNew None, EvBackendLoad (Some NotInitialized)]))
   \<and> Load env_ok (newSafeLoader False) ((), []) =
       LoadWithBackendClient env_ok (newSafeLoader False)
         ((), [EvBackendsNew None, EvBackendLoad None])"
  using Load_not_initialized [of env_fresh "()" "()" NotInitialized "()" "newSafeLoader False" "[]"]
    Load_not_initialized [of env_ok "()" "()" _ "()" "newSafeLoader False" "[]"]
  by (simp add: env_ok_def env_fresh_def)

text \<open>
  "Exactly when the backend reports NotInitialized" fails: an I/O error of
  \<open>backendClient.Load\<close> is not that condition, and \<open>Load\<close> answers "not initialized" all
  the same.
\<close>

theorem Load_unreadable_counterexample:
  "client_Load env_unreadable () = (Some IOError, ()) \<and> IOError \<noteq> NotInitialized
   \<and> fst (Load env_unreadable (newSafeLoader False) ((), [])) =
       Inl (New ''pick not yet initialized. Please run the init command first'')"
  by (simp add: Load_def do_backends_New_def do_client_Load_def env_unreadable_def env_ok_def)

subsection \<open>Errors that are dropped\<close>




subsection \<open>The exit contract\<close>

text \<open>
  Claim C6. \<open>runCommand\<close> exits with code 0 when the wrapped command returns no error. On
  \<open>ErrInvalidCommandUsage\<close> it prints the usage and exits with code 1, and the error is
  not printed. On any other error it prints the error and exits with code 1.
\<close>

theorem runCommand_exit_contract:
  "(c args (Flags cmd) = (None, printed) \<longrightarrow>
      runCommand c cmd args out = (0, out @ printed))
   \<and> (c args (Flags cmd) = (Some ErrInvalidCommandUsage, printed) \<longrightarrow>
      runCommand c cmd args out = (1, out @ printed @ [EvUsage]))
   \<and> (c args (Flags cmd) = (Some err, printed) \<and> err \<noteq> ErrInvalidCommandUsage \<longrightarrow>
      runCommand c cmd args out = (1, out @ printed @ [EvPrintlnErr err]))"
  by (simp add: runCommand_def handleError_def)

theorem runCommand_exit_contract_witness:
  "runCommand cmd_ok \<lparr>Flags = ()\<rparr> [''ls''] [] = (0, [EvPrintln ''done''])
   \<and> runCommand cmd_usage \<lparr>Flags = ()\<rparr> [''ls''] [] = (1, [EvUsage])
   \<and> runCommand cmd_fail \<lparr>Flags = ()\<rparr> [''ls''] [] = (1, [EvPrintlnErr AuthenticationFailed])"
  using runCommand_exit_contract [of cmd_ok "[''ls'']" "\<lparr>Flags = ()\<rparr>" "[EvPrintln ''done'']" "[]"]
    runCommand_exit_contract [of cmd_usage "[''ls'']" "\<lparr>Flags = ()\<rparr>" "[]" "[]"]
    runCommand_exit_contract [of cmd_fail "[''ls'']" "\<lparr>Flags = ()\<rparr>" "[]" "[]" AuthenticationFailed]
  by (simp add: cmd_ok_def cmd_usage_def cmd_fail_def)

subsection \<open>The password of a new safe\<close>

text \<open>
  Claim C7. When the prompt delivers an input at the entry and at the confirmation,
  \<open>readMasterPassConfirmed\<close> has prompted exactly twice, entry first, and returns the
  entered password if the two inputs are equal byte for byte, and the error
  "Master passwords do not match" (no password) if they differ. An \<open>initSafe\<close> that
  succeeds has prompted exactly twice.
\<close>

theorem readMasterPassConfirmed_twice:
  "(add = (if n then ''new '' else '''')
      \<and> GetPasswordInput E (entry_msg add) w = (Inr p1, w1)
      \<and> GetPasswordInput E (confirm_msg add) w1 = (Inr p2, w2) \<longrightarrow>
    readMasterPassConfirmed E n (w, tr) =
      ((if p1 = p2 then Inr p1 else Inl (New ''Master passwords do not match'')),
       (w2, tr @ [EvPrompt (entry_msg add) None, EvPrompt (confirm_msg add) None])))
   \<and> (initSafe E (w, tr) = (None, (w', tr')) \<longrightarrow> prompts tr' = prompts tr + 2)"
proof (intro conjI impI)
  assume "add = (if n then ''new '' else '''')
      \<and> GetPasswordInput E (entry_msg add) w = (Inr p1, w1)
      \<and> GetPasswordInput E (confirm_msg add) w1 = (Inr p2, w2)"
  then show "readMasterPassConfirmed E n (w, tr) =
      ((if p1 = p2 then Inr p1 else Inl (New ''Master passwords do not match'')),
       (w2, tr @ [EvPrompt (entry_msg add) None, EvPrompt (confirm_msg add) None]))"
    by (auto simp: readMasterPassConfirmed_def do_GetPasswordInput_def Let_def
          entry_msg_def confirm_msg_def)
next
  assume "initSafe E (w, tr) = (None, (w', tr'))"
  then show "prompts tr' = prompts tr + 2"
    by (rule initSafe_success_prompts)
qed

theorem readMasterPassConfirmed_twice_witness:
  "readMasterPassConfirmed env_ok False ((), []) =
     (Inr [1, 2, 3], ((), [EvPrompt (entry_msg '''') None, EvPrompt (confirm_msg '''') None]))
   \<and> readMasterPassConfirmed env_flaky True (0, []) =
     (Inl (New ''Master passwords do not match''),
      (2, [EvPrompt (entry_msg ''new '') None, EvPrompt (confirm_msg ''new '') None]))
   \<and> fst (initSafe env_fresh ((), [])) = None
   \<and> prompts (snd (snd (initSafe env_fresh ((), [])))) = 2"
proof -
  have run: "initSafe env_fresh ((), []) =
      (None, ((), [EvBackendsNew None, EvBackendLoad (Some NotInitialized),
                   EvSetWritable True None,
                   EvPrompt (entry_msg '''') None, EvPrompt (confirm_msg '''') None,
                   EvCryptoNew None, EvSafeLoad [1, 2, 3] None, EvSafeInit None,
                   EvPrintln ''pick initialized'']))"
    by (simp add: init_defs env_fresh_def env_ok_def entry_msg_def confirm_msg_def)
  show ?thesis
    using readMasterPassConfirmed_twice
            [of "''''" False env_ok "()" "[1, 2, 3]" "()" "[1, 2, 3]" "()" "[]"]
      readMasterPassConfirmed_twice [of "''new ''" True env_flaky 0 "[0]" 1 "[1]" 2 "[]"]
      readMasterPassConfirmed_twice [of _ _ env_fresh "()" _ _ _ _ "[]" "()"]
      run
    by (simp add: env_ok_def env_flaky_def)
qed

subsection \<open>The recursion ends\<close>

text \<open>
  Claim C8. \<open>LoadWithBackendClient\<close> is a total function: its recursion was shown to end
  for every loader and every behaviour of the collaborators, with the measure
  \<open>retries_left\<close>, that is \<open>maxLoadTries - loadTries\<close>. The measure is strictly smaller
  at the recursive call, which is made under the guard \<open>loadTries < maxLoadTries\<close>. A run
  makes at most \<open>retries_left + 1\<close> calls of \<open>safe.Load\<close>, hence at most
  \<open>maxLoadTries + 1\<close> for a budget and a count of consumed retries that are not
  negative.
\<close>

theorem LoadWithBackendClient_attempts_bound:
  "attempts (snd (snd (snd (LoadWithBackendClient E sl (w, tr)))))
     \<le> attempts tr + retries_left sl + 1
   \<and> (loadTries sl <s maxLoadTries sl \<longrightarrow> retries_left (retry sl) < retries_left sl)
   \<and> (0 \<le>s loadTries sl \<and> 0 \<le>s maxLoadTries sl \<longrightarrow>
        attempts (snd (snd (snd (LoadWithBackendClient E sl (w, tr)))))
          \<le> attempts tr + nat (sint (maxLoadTries sl)) + 1)"
proof -
  obtain r sl' st' where eq: "LoadWithBackendClient E sl (w, tr) = (r, sl', st')"
    by (rule prod_cases3)
  from LWBC_attempts [OF eq]
  have b: "attempts (snd st') \<le> attempts tr + retries_left sl + 1" by simp
  have "retries_left sl \<le> nat (sint (maxLoadTries sl))"
    if "0 \<le>s loadTries sl" "0 \<le>s maxLoadTries sl"
    using that by (simp add: retries_left_def word_sle_eq)
  with b show ?thesis
    using retries_left_retry [of sl] by (auto simp: eq)
qed

theorem LoadWithBackendClient_attempts_bound_witness:
  "attempts (snd (snd (snd (LoadWithBackendClient env_flaky
                              (RememberPassword (newSafeLoader False)) (0, []))))) \<le> 2
   \<and> retries_left (retry (RememberPassword (newSafeLoader False)))
       < retries_left (RememberPassword (newSafeLoader False))"
  using LoadWithBackendClient_attempts_bound
          [of env_flaky "RememberPassword (newSafeLoader False)" 0 "[]"]
  by (simp add: newSafeLoader_def RememberPassword_def word_sless_alt word_sle_eq)

subsection \<open>The invariant of the loader\<close>

text \<open>
  Claim C9, as amended. \<open>loadTries \<le> maxLoadTries\<close> holds for the loader of
  \<open>newSafeLoader\<close>; \<open>RememberPassword\<close> preserves it as long as \<open>maxLoadTries\<close> is not
  the largest \<open>int\<close>; every run of \<open>LoadWithBackendClient\<close>, recursive calls included,
  preserves it.
\<close>

theorem tries_inv_preserved:
  "tries_inv (newSafeLoader b)
   \<and> (tries_inv sl \<and> maxLoadTries sl \<noteq> max_go_int \<longrightarrow> tries_inv (RememberPassword sl))
   \<and> (tries_inv sl \<longrightarrow> tries_inv (fst (snd (LoadWithBackendClient E sl st))))"
proof (intro conjI impI)
  show "tries_inv (newSafeLoader b)"
    by (simp add: tries_inv_def newSafeLoader_def)
next
  assume "tries_inv sl \<and> maxLoadTries sl \<noteq> max_go_int"
  then show "tries_inv (RememberPassword sl)"
    by (simp add: tries_inv_def RememberPassword_def word_sle_eq sint_succ_not_max)
next
  assume inv: "tries_inv sl"
  obtain r sl' st' where eq: "LoadWithBackendClient E sl st = (r, sl', st')"
    by (rule prod_cases3)
  from LWBC_loader [OF eq] inv show "tries_inv (fst (snd (LoadWithBackendClient E sl st)))"
    by (simp add: eq)
qed

theorem tries_inv_preserved_witness:
  "tries_inv (newSafeLoader False) \<and> tries_inv (RememberPassword (newSafeLoader False))
   \<and> tries_inv (fst (snd (LoadWithBackendClient env_flaky
                            (RememberPassword (newSafeLoader False)) (0, []))))"
  using tries_inv_preserved [of False "newSafeLoader False" env_flaky "(0, [])"]
    tries_inv_preserved [of False "RememberPassword (newSafeLoader False)" env_flaky "(0, [])"]
  by (simp add: newSafeLoader_def max_go_int_def)

text \<open>
  At the largest \<open>int\<close>, the budget after \<open>2^63 - 1\<close> calls of \<open>RememberPassword\<close>,
  the increment of one more call wraps to the smallest \<open>int\<close>, below \<open>loadTries\<close>: the
  invariant held before the call and does not hold after it.
\<close>

theorem RememberPassword_overflow_counterexample:
  "(RememberPassword ^^ (2 ^ 63 - 1)) (newSafeLoader False) = sl_full
   \<and> tries_inv sl_full \<and> \<not> tries_inv (RememberPassword sl_full)"
  by (simp add: funpow_RememberPassword tries_inv_def sl_full_def RememberPassword_def
        max_go_int_def word_sle_eq)

subsection \<open>A command that has moved\<close>

text \<open>
  Claim C10. For every wrapped command, arguments, flag set and log so far,
  \<open>runMovedCommand\<close> exits with the code of \<open>runCommand\<close>, and its log is the log so far,
  the note that names the new location, and then exactly what \<open>runCommand\<close> adds to the
  log.
\<close>

theorem runMovedCommand_as_runCommand:
  "fst (runMovedCommand c cmd args nl out) = fst (runCommand c cmd args out)
   \<and> snd (runMovedCommand c cmd args nl out)
       = out @ [moved_note nl] @ drop (length out) (snd (runCommand c cmd args out))"
  by (simp add: runMovedCommand_def runCommand_def handleError_def moved_note_def
        split: prod.splits option.splits)

end
